theory Spec2Isabelle
  imports Complex_Main "HOL-Library.Word"
begin

section \<open>The Gemini live service: data model\<close>

text \<open>
  A shallow embedding of \<^verbatim>\<open>src/services/geminiService.ts\<close>. The class
  \<^verbatim>\<open>GeminiLiveService\<close> becomes the record \<open>service\<close>, its methods become
  functions from a service to the updated service, the list of observable effects
  (callbacks invoked, calls made on the session and on the Web Audio objects) and a
  completion that says whether the method returned or threw (for \<^verbatim>\<open>disconnect\<close>,
  which is modelled with its \<^verbatim>\<open>await\<close>s: whether it finished, rejected or is
  suspended). JavaScript numbers
  (\<^verbatim>\<open>nextStartTime\<close>, the output clock, buffer durations, the amplitude) are
  modelled as \<open>real\<close>: rounding of doubles is not represented.
\<close>

subsection \<open>JavaScript values and inbound messages\<close>

text \<open>
  \<^verbatim>\<open>fc.args\<close> is used as \<^verbatim>\<open>any\<close> (line 151), so it is modelled as an untyped
  JavaScript value; an absent \<^verbatim>\<open>args\<close> is \<open>JUndefined\<close>.
\<close>

datatype js_value =
    JUndefined
  | JNull
  | JBool bool
  | JNum real
  | JStr string
  | JObj "(string \<times> js_value) list"

datatype error = TypeError | InvalidStateError | NotAllowedError

datatype completion = Returned | Threw error

text \<open>
  \<^verbatim>\<open>(fc.args as any).command\<close>: reading a property of \<^verbatim>\<open>undefined\<close> or
  \<^verbatim>\<open>null\<close> throws a TypeError; an object yields the property's value, or
  \<^verbatim>\<open>undefined\<close> when it has none; a primitive has no \<^verbatim>\<open>command\<close> property.
\<close>

fun get_command :: "js_value \<Rightarrow> error + js_value" where
  "get_command JUndefined = Inl TypeError"
| "get_command JNull = Inl TypeError"
| "get_command (JObj kvs) =
     (case map_of kvs ''command'' of None \<Rightarrow> Inr JUndefined | Some v \<Rightarrow> Inr v)"
| "get_command v = Inr JUndefined"

text \<open>A function call of a tool-call message: \<^verbatim>\<open>id\<close>, \<^verbatim>\<open>name\<close>, \<^verbatim>\<open>args\<close>.\<close>

record function_call =
  fc_id :: "string option"
  fc_name :: "string option"
  fc_args :: js_value

record tool_call =
  functionCalls :: "function_call list option"

record blob =
  data :: "string option"

record part =
  inlineData :: "blob option"

record content =
  parts :: "part list option"

record server_content =
  interrupted :: "bool option"
  modelTurn :: "content option"

record live_server_message =
  toolCall :: "tool_call option"
  serverContent :: "server_content option"

text \<open>An entry of \<^verbatim>\<open>functionResponses\<close>: \<^verbatim>\<open>id\<close>, \<^verbatim>\<open>name\<close>, \<^verbatim>\<open>response.result\<close>.\<close>

record function_response =
  fr_id :: "string option"
  fr_name :: "string option"
  fr_result :: string

subsection \<open>Web Audio objects and the service\<close>

record audio_context =
  sampleRate :: nat
  closed :: bool

record analyser_node =
  fftSize :: nat

record script_processor =
  bufferSize :: nat
  connected :: bool
  onaudioprocess :: bool

record media_stream =
  tracks :: nat

text \<open>
  An \<^verbatim>\<open>AudioBufferSourceNode\<close>: an object identity and the duration of its buffer.
\<close>

record audio_source =
  src_id :: nat
  src_duration :: real

datatype VoiceName = Puck | Charon | Kore | Fenrir | Zephyr

record live_session =
  voiceName :: VoiceName

text \<open>
  The fields of \<^verbatim>\<open>GeminiLiveService\<close> (lines 34-44). The JavaScript \<^verbatim>\<open>Set\<close> of
  sources iterates in insertion order and is a list without repetitions here.
  \<open>fresh\<close> is not a field of the class: it numbers the source nodes created so far,
  so that each new node has its own identity.
\<close>

record service =
  inputAudioContext :: "audio_context option"
  outputAudioContext :: "audio_context option"
  nextStartTime :: real
  sources :: "audio_source list"
  activeStream :: "media_stream option"
  processor :: "script_processor option"
  sessionPromise :: "live_session option"
  outputNode :: "unit option"
  analyser :: "analyser_node option"
  animationFrameId :: "nat option"
  fresh :: nat

text \<open>The effects a method has on its collaborators, in the order they happen.\<close>

datatype event =
    OnCommand js_value
  | SendToolResponse "function_response list"
  | SourceStop nat
  | SourceStart nat real
  | OnAudioData "real option"
  | OnOpen
  | RequestAnimationFrame nat
  | CancelAnimationFrame nat
  | ProcessorDisconnect
  | TrackStop nat
  | ContextClose nat

type_synonym outcome = "service \<times> event list \<times> completion"

definition state_of :: "service \<times> event list \<times> 'c \<Rightarrow> service" where
  "state_of r = fst r"

definition events_of :: "service \<times> event list \<times> 'c \<Rightarrow> event list" where
  "events_of r = fst (snd r)"

definition completion_of :: "service \<times> event list \<times> 'c \<Rightarrow> 'c" where
  "completion_of r = snd (snd r)"

text \<open>The freshly constructed service (field initialisers, lines 35-44).\<close>

definition new_service :: service where
  "new_service =
     \<lparr>inputAudioContext = None, outputAudioContext = None, nextStartTime = 0,
      sources = [], activeStream = None, processor = None, sessionPromise = None,
      outputNode = None, analyser = None, animationFrameId = None, fresh = 0\<rparr>"

section \<open>handleServerMessage\<close>

subsection \<open>Tool calls (lines 147-168)\<close>

text \<open>The object pushed to \<^verbatim>\<open>responses\<close> at lines 154-158.\<close>

definition acknowledgment :: "function_call \<Rightarrow> function_response" where
  "acknowledgment fc =
     \<lparr>fr_id = fc_id fc, fr_name = fc_name fc, fr_result = ''Command executed successfully''\<rparr>"

text \<open>
  The loop over \<^verbatim>\<open>message.toolCall.functionCalls\<close>: \<open>evs\<close> are the callbacks made
  so far and \<open>responses\<close> the array being filled. A throw at line 151 leaves the loop
  with the callbacks already made and nothing sent.
\<close>

fun tool_loop ::
  "function_call list \<Rightarrow> event list \<Rightarrow> function_response list \<Rightarrow>
   (event list \<times> function_response list) \<times> completion" where
  "tool_loop [] evs responses = ((evs, responses), Returned)"
| "tool_loop (fc # fcs) evs responses =
     (if fc_name fc = Some ''executeSystemCommand'' then
        (case get_command (fc_args fc) of
           Inl e \<Rightarrow> ((evs, responses), Threw e)
         | Inr command \<Rightarrow>
             tool_loop fcs (evs @ [OnCommand command]) (responses @ [acknowledgment fc]))
      else tool_loop fcs evs responses)"

text \<open>
  Lines 147-161: the callbacks made and the \<^verbatim>\<open>responses\<close> array at the end of the
  loop. Iterating an absent \<^verbatim>\<open>functionCalls\<close> throws.
\<close>

definition handle_tool_calls ::
  "live_server_message \<Rightarrow> (event list \<times> function_response list) \<times> completion" where
  "handle_tool_calls message =
     (case toolCall message of
        None \<Rightarrow> (([], []), Returned)
      | Some tc \<Rightarrow>
          (case functionCalls tc of
             None \<Rightarrow> (([], []), Threw TypeError)
           | Some fcs \<Rightarrow> tool_loop fcs [] []))"

text \<open>
  Lines 162-166: \<^verbatim>\<open>this.sessionPromise?.then(session => session.sendToolResponse(...))\<close>,
  only when there is at least one response and a session promise. The callback of
  \<^verbatim>\<open>then\<close> is a microtask: it runs once the synchronous part of the handler has
  ended, that is at its \<^verbatim>\<open>return\<close> or at the \<^verbatim>\<open>await\<close> of line 188, whichever
  comes first. The session promise is taken to be fulfilled when a message arrives.
\<close>

definition deferred_send :: "service \<Rightarrow> function_response list \<Rightarrow> event list" where
  "deferred_send s responses =
     (if responses \<noteq> [] \<and> sessionPromise s \<noteq> None then [SendToolResponse responses] else [])"

subsection \<open>Interruption and audio (lines 170-201)\<close>

text \<open>\<^verbatim>\<open>message.serverContent?.interrupted\<close> as a condition.\<close>

definition signals_interruption :: "live_server_message \<Rightarrow> bool" where
  "signals_interruption message =
     (case serverContent message of
        None \<Rightarrow> False
      | Some sc \<Rightarrow> interrupted sc = Some True)"

text \<open>
  \<^verbatim>\<open>message.serverContent?.modelTurn?.parts?.[0]?.inlineData?.data\<close>, with
  \<^verbatim>\<open>undefined\<close> as \<open>None\<close>.
\<close>

definition base64Audio :: "live_server_message \<Rightarrow> string option" where
  "base64Audio message =
     (case serverContent message of
        None \<Rightarrow> None
      | Some sc \<Rightarrow>
          (case modelTurn sc of
             None \<Rightarrow> None
           | Some mt \<Rightarrow>
               (case parts mt of
                  None \<Rightarrow> None
                | Some [] \<Rightarrow> None
                | Some (p # ps) \<Rightarrow>
                    (case inlineData p of
                       None \<Rightarrow> None
                     | Some b \<Rightarrow> data b))))"

text \<open>
  Lines 174-178: every source in the set is stopped (an exception of \<^verbatim>\<open>stop\<close> is
  caught and dropped), the set is cleared and the cursor reset.
\<close>

definition interrupt :: "service \<Rightarrow> service \<times> event list" where
  "interrupt s =
     (s\<lparr>sources := [], nextStartTime := 0\<rparr>, map (\<lambda>source. SourceStop (src_id source)) (sources s))"

text \<open>\<^verbatim>\<open>this.sources.add(source)\<close>: a set keeps one copy of an object.\<close>

definition add_source :: "audio_source \<Rightarrow> audio_source list \<Rightarrow> audio_source list" where
  "add_source source xs = (if source \<in> set xs then xs else xs @ [source])"

text \<open>
  Lines 185-200. \<open>duration\<close> gives the duration of the buffer that
  \<^verbatim>\<open>createAudioBuffer(decodePCM(base64Audio), ctx, 24000)\<close> builds from the payload
  (both functions live in \<^verbatim>\<open>audioUtils\<close>, which is not part of the sources; they
  are taken not to throw). \<open>currentTime\<close> is the reading of
  \<^verbatim>\<open>this.outputAudioContext.currentTime\<close>. The \<^verbatim>\<open>await\<close> at line 188 is taken to
  resume before any other callback runs.
\<close>

definition enqueue :: "(string \<Rightarrow> real) \<Rightarrow> real \<Rightarrow> string \<Rightarrow> service \<Rightarrow> service \<times> event list" where
  "enqueue duration currentTime payload s =
     (let startTime = max (nextStartTime s) currentTime;
          source = \<lparr>src_id = fresh s, src_duration = duration payload\<rparr>
      in (s\<lparr>nextStartTime := startTime + src_duration source,
            sources := add_source source (sources s),
            fresh := Suc (fresh s)\<rparr>,
          [SourceStart (src_id source) startTime]))"

text \<open>
  The handler \<^verbatim>\<open>handleServerMessage\<close>, lines 145-202. A throw in the tool-call
  loop ends it before line 162, so nothing is sent. Otherwise the deferred send
  \<open>send\<close> takes place where the synchronous part ends: after the
  \<^verbatim>\<open>source.stop()\<close> calls of an interruption, and before the \<^verbatim>\<open>source.start\<close> that
  follows the \<^verbatim>\<open>await\<close> of line 188.
\<close>

definition handleServerMessage ::
  "(string \<Rightarrow> real) \<Rightarrow> real \<Rightarrow> service \<Rightarrow> live_server_message \<Rightarrow> outcome" where
  "handleServerMessage duration currentTime s message =
     (case handle_tool_calls message of
        ((evs, responses), Threw e) \<Rightarrow> (s, evs, Threw e)
      | ((evs, responses), Returned) \<Rightarrow>
          (let send = deferred_send s responses
           in if outputAudioContext s = None \<or> outputNode s = None then (s, evs @ send, Returned)
              else if signals_interruption message then
                (case interrupt s of (s', evs') \<Rightarrow> (s', evs @ evs' @ send, Returned))
              else
                (case base64Audio message of
                   None \<Rightarrow> (s, evs @ send, Returned)
                 | Some payload \<Rightarrow>
                     (if payload = [] then (s, evs @ send, Returned)
                      else (case enqueue duration currentTime payload s of
                              (s', evs') \<Rightarrow> (s', evs @ send @ evs', Returned))))))"

text \<open>The \<^verbatim>\<open>ended\<close> listener of a source (lines 194-196).\<close>

definition source_ended :: "nat \<Rightarrow> service \<Rightarrow> service" where
  "source_ended i s = s\<lparr>sources := filter (\<lambda>source. src_id source \<noteq> i) (sources s)\<rparr>"

section \<open>connect, the visualizer loop and disconnect\<close>

subsection \<open>The visualizer loop (lines 71-83)\<close>

definition frequencyBinCount :: "analyser_node \<Rightarrow> nat" where
  "frequencyBinCount a = fftSize a div 2"

text \<open>
  \<^verbatim>\<open>new Uint8Array(frequencyBinCount)\<close> filled by \<^verbatim>\<open>getByteFrequencyData\<close>:
  \<open>spectrum\<close> is what the analyser currently holds; the array keeps its own length
  (missing entries stay 0, surplus entries are dropped).
\<close>

definition getByteFrequencyData :: "analyser_node \<Rightarrow> 8 word list \<Rightarrow> 8 word list" where
  "getByteFrequencyData a spectrum =
     take (frequencyBinCount a) (spectrum @ replicate (frequencyBinCount a) 0)"

text \<open>
  Lines 76-80: the sum of the bins divided by their number. The sum of at most
  \<open>2 ^ 32\<close> bytes and its quotient by a power of two are exact in doubles. For an empty
  array JavaScript computes \<^verbatim>\<open>0 / 0\<close>, which is NaN: \<open>None\<close> here.
\<close>

definition average :: "8 word list \<Rightarrow> real option" where
  "average dataArray =
     (let sum = fold (\<lambda>b sum. sum + real (unat b)) dataArray 0
      in if length dataArray = 0 then None else Some (sum / real (length dataArray)))"

text \<open>
  One run of \<^verbatim>\<open>updateVisualizer\<close>; \<open>frame\<close> is the identifier that
  \<^verbatim>\<open>requestAnimationFrame\<close> returns.
\<close>

definition updateVisualizer :: "8 word list \<Rightarrow> nat \<Rightarrow> service \<Rightarrow> service \<times> event list" where
  "updateVisualizer spectrum frame s =
     (case analyser s of
        None \<Rightarrow> (s, [])
      | Some a \<Rightarrow>
          (s\<lparr>animationFrameId := Some frame\<rparr>,
           [OnAudioData (average (getByteFrequencyData a spectrum)), RequestAnimationFrame frame]))"

subsection \<open>connect (lines 50-123)\<close>

text \<open>
  Lines 53-84, up to the \<^verbatim>\<open>await\<close> of the microphone: both contexts, the gain
  node, the analyser with \<^verbatim>\<open>fftSize = 256\<close>, and the first run of the visualizer.
\<close>

definition connect_setup :: "8 word list \<Rightarrow> nat \<Rightarrow> service \<Rightarrow> service \<times> event list" where
  "connect_setup spectrum frame s =
     updateVisualizer spectrum frame
       (s\<lparr>inputAudioContext := Some \<lparr>sampleRate = 16000, closed = False\<rparr>,
          outputAudioContext := Some \<lparr>sampleRate = 24000, closed = False\<rparr>,
          outputNode := Some (),
          analyser := Some \<lparr>fftSize = 256\<rparr>\<rparr>)"

text \<open>
  Lines 87-122: \<open>microphone\<close> is the result of \<^verbatim>\<open>getUserMedia\<close>, \<open>None\<close> when
  it rejects (then \<^verbatim>\<open>connect\<close> throws and nothing after line 87 runs).
\<close>

definition connect_session :: "media_stream option \<Rightarrow> VoiceName \<Rightarrow> service \<Rightarrow> service \<times> completion" where
  "connect_session microphone voice s =
     (case microphone of
        None \<Rightarrow> (s, Threw NotAllowedError)
      | Some stream \<Rightarrow>
          (s\<lparr>activeStream := Some stream, sessionPromise := Some \<lparr>voiceName = voice\<rparr>\<rparr>, Returned))"

definition connect :: "8 word list \<Rightarrow> nat \<Rightarrow> media_stream option \<Rightarrow> VoiceName \<Rightarrow> service \<Rightarrow> outcome" where
  "connect spectrum frame microphone voice s =
     (case connect_setup spectrum frame s of
        (s1, evs) \<Rightarrow>
          (case connect_session microphone voice s1 of (s2, c) \<Rightarrow> (s2, evs, c)))"

text \<open>\<^verbatim>\<open>startInputStreaming\<close> (lines 125-143) and the \<^verbatim>\<open>onopen\<close> callback.\<close>

definition startInputStreaming :: "service \<Rightarrow> service" where
  "startInputStreaming s =
     (if inputAudioContext s = None \<or> activeStream s = None \<or> sessionPromise s = None then s
      else s\<lparr>processor := Some \<lparr>bufferSize = 4096, connected = True, onaudioprocess = True\<rparr>\<rparr>)"

definition onopen :: "service \<Rightarrow> service \<times> event list" where
  "onopen s = (startInputStreaming s, [OnOpen])"

subsection \<open>disconnect (lines 204-239)\<close>

text \<open>
  \<^verbatim>\<open>disconnect\<close> is an \<^verbatim>\<open>async\<close> method with two \<^verbatim>\<open>await\<close>s (lines 225 and
  228). Between its parts other callbacks and other calls of the service's methods
  can run, and the fields are read again when it resumes. A call has finished, has
  rejected, or is suspended at one of the two \<^verbatim>\<open>await\<close>s.
\<close>

datatype continuation = AfterInputClose | AfterOutputClose

datatype progress = Finished | Rejected error | Suspended continuation

text \<open>Lines 215-218: the processor is disconnected and loses its callback.\<close>

definition muted :: "service \<Rightarrow> service" where
  "muted s =
     (case processor s of
        None \<Rightarrow> s
      | Some p \<Rightarrow> s\<lparr>processor := Some (p\<lparr>connected := False, onaudioprocess := False\<rparr>)\<rparr>)"

text \<open>
  Lines 231-238, the part after the second \<^verbatim>\<open>await\<close>. The processor and the
  animation frame identifier keep their references; the set is cleared, the stream
  and both contexts are set to \<^verbatim>\<open>null\<close>. \<^verbatim>\<open>if (this.animationFrameId)\<close> is false for
  0 as well as for \<^verbatim>\<open>null\<close>.
\<close>

definition disconnect_finish :: "service \<Rightarrow> service \<times> event list \<times> progress" where
  "disconnect_finish s =
     (s\<lparr>sources := [], activeStream := None,
        inputAudioContext := None, outputAudioContext := None\<rparr>,
      (case animationFrameId s of
         None \<Rightarrow> []
       | Some n \<Rightarrow> if n \<noteq> 0 then [CancelAnimationFrame n] else []),
      Finished)"

text \<open>
  Lines 227-229 and what follows. \<^verbatim>\<open>AudioContext.close()\<close> marks the context as
  closed at the call and returns a promise; on a context that is closed already the
  promise is rejected with an InvalidStateError, which the \<^verbatim>\<open>await\<close> throws. The
  field keeps referring to the closed context until line 238.
\<close>

definition disconnect_output :: "service \<Rightarrow> service \<times> event list \<times> progress" where
  "disconnect_output s =
     (case outputAudioContext s of
        None \<Rightarrow> disconnect_finish s
      | Some c \<Rightarrow>
          (if closed c then (s, [], Rejected InvalidStateError)
           else (s\<lparr>outputAudioContext := Some (c\<lparr>closed := True\<rparr>)\<rparr>,
                 [ContextClose (sampleRate c)], Suspended AfterOutputClose)))"

text \<open>Lines 205-226: the call of \<^verbatim>\<open>disconnect\<close>, up to its first \<^verbatim>\<open>await\<close>.\<close>

definition disconnect_start :: "service \<Rightarrow> service \<times> event list \<times> progress" where
  "disconnect_start s =
     (let s1 = muted s;
          ev1 = (case processor s of None \<Rightarrow> [] | Some p \<Rightarrow> [ProcessorDisconnect]);
          ev2 = (case activeStream s1 of None \<Rightarrow> [] | Some stream \<Rightarrow> map TrackStop [0..<tracks stream])
      in case inputAudioContext s1 of
           None \<Rightarrow> (case disconnect_output s1 of (s2, evs, p) \<Rightarrow> (s2, ev1 @ ev2 @ evs, p))
         | Some c \<Rightarrow>
             (if closed c then (s1, ev1 @ ev2, Rejected InvalidStateError)
              else (s1\<lparr>inputAudioContext := Some (c\<lparr>closed := True\<rparr>)\<rparr>,
                    ev1 @ ev2 @ [ContextClose (sampleRate c)], Suspended AfterInputClose)))"

text \<open>A suspended call resumes, on the service as it is by then.\<close>

fun disconnect_resume :: "continuation \<Rightarrow> service \<Rightarrow> service \<times> event list \<times> progress" where
  "disconnect_resume AfterInputClose s = disconnect_output s"
| "disconnect_resume AfterOutputClose s = disconnect_finish s"

text \<open>
  A call that is resumed, up to \<open>n\<close> times, with nothing else running on the service
  in between.
\<close>

fun resumed :: "nat \<Rightarrow> service \<times> event list \<times> progress \<Rightarrow> service \<times> event list \<times> progress" where
  "resumed (Suc n) (s, evs, Suspended k) =
     (case disconnect_resume k s of (s', evs', p) \<Rightarrow> resumed n (s', evs @ evs', p))"
| "resumed n r = r"

text \<open>
  \<^verbatim>\<open>await service.disconnect()\<close> with nothing else running on the service until it
  settles: the call and its two resumptions.
\<close>

definition disconnect :: "service \<Rightarrow> service \<times> event list \<times> progress" where
  "disconnect s = resumed (Suc (Suc 0)) (disconnect_start s)"

subsection \<open>Reachable states\<close>

text \<open>
  The states a service can be in: it is constructed, and then the parts of its
  methods and callbacks run, in any order. A server message is delivered by the
  session only, so only once \<^verbatim>\<open>sessionPromise\<close> has been assigned. The second part
  of \<^verbatim>\<open>connect\<close> and the resumptions of \<^verbatim>\<open>disconnect\<close> are allowed in every state,
  which is more than the code can do.
\<close>

inductive reachable :: "service \<Rightarrow> bool" where
  r_new: "reachable new_service"
| r_setup: "reachable s \<Longrightarrow> reachable (fst (connect_setup spectrum frame s))"
| r_session: "reachable s \<Longrightarrow> reachable (fst (connect_session microphone voice s))"
| r_open: "reachable s \<Longrightarrow> reachable (fst (onopen s))"
| r_message:
    "reachable s \<Longrightarrow> sessionPromise s \<noteq> None \<Longrightarrow>
     reachable (state_of (handleServerMessage duration currentTime s message))"
| r_ended: "reachable s \<Longrightarrow> reachable (source_ended i s)"
| r_tick: "reachable s \<Longrightarrow> reachable (fst (updateVisualizer spectrum frame s))"
| r_disconnect: "reachable s \<Longrightarrow> reachable (state_of (disconnect_start s))"
| r_resume: "reachable s \<Longrightarrow> reachable (state_of (disconnect_resume k s))"

section \<open>Well-formed tool calls\<close>

text \<open>
  The tool declared at lines 17-31 is named \<^verbatim>\<open>executeSystemCommand\<close> and takes an
  object with a required \<^verbatim>\<open>command\<close> field. A request for this tool is the test of
  line 150; it has arguments when \<^verbatim>\<open>fc.args\<close> is neither \<^verbatim>\<open>undefined\<close> nor
  \<^verbatim>\<open>null\<close>, which is what line 151 needs in order not to throw.
\<close>

definition is_system_command :: "function_call \<Rightarrow> bool" where
  "is_system_command fc = (fc_name fc = Some ''executeSystemCommand'')"

definition has_arguments :: "function_call \<Rightarrow> bool" where
  "has_arguments fc = (fc_args fc \<noteq> JUndefined \<and> fc_args fc \<noteq> JNull)"

text \<open>The value that line 151 reads from a request that has arguments.\<close>

definition command_of :: "function_call \<Rightarrow> js_value" where
  "command_of fc = (case get_command (fc_args fc) of Inl e \<Rightarrow> JUndefined | Inr v \<Rightarrow> v)"

definition conforming :: "function_call list \<Rightarrow> bool" where
  "conforming fcs = list_all has_arguments (filter is_system_command fcs)"

text \<open>
  A message conforms when its tool call, if it has one, lists its function calls and
  every request for the system-command tool has arguments.
\<close>

definition conforms :: "live_server_message \<Rightarrow> bool" where
  "conforms message =
     (case toolCall message of
        None \<Rightarrow> True
      | Some tc \<Rightarrow> (case functionCalls tc of None \<Rightarrow> False | Some fcs \<Rightarrow> conforming fcs))"

text \<open>The values of the type \<^verbatim>\<open>SystemCommand\<close> (\<^verbatim>\<open>types.ts\<close>, line 20).\<close>

definition recognized_command :: "js_value \<Rightarrow> bool" where
  "recognized_command v =
     (v = JStr ''shutdown'' \<or> v = JStr ''restart'' \<or> v = JStr ''status_check'')"

section \<open>Invariant\<close>

text \<open>
  What every reachable state satisfies: sources are scheduled only while there are
  an output context and an output node, and the analyser has the \<^verbatim>\<open>fftSize\<close> that
  line 67 gives it.
\<close>

definition service_invariant :: "service \<Rightarrow> bool" where
  "service_invariant s =
     ((outputAudioContext s = None \<or> outputNode s = None \<longrightarrow> sources s = []) \<and>
      (\<forall>a. analyser s = Some a \<longrightarrow> fftSize a = 256))"

text \<open>
  No context that the service refers to has been closed. A context is closed and
  still referred to exactly while a \<^verbatim>\<open>disconnect\<close> is suspended at one of its
  \<^verbatim>\<open>await\<close>s, so this says that no \<^verbatim>\<open>disconnect\<close> is in progress.
\<close>

definition open_contexts :: "service \<Rightarrow> bool" where
  "open_contexts s =
     ((\<forall>c. inputAudioContext s = Some c \<longrightarrow> \<not> closed c) \<and>
      (\<forall>c. outputAudioContext s = Some c \<longrightarrow> \<not> closed c))"

section \<open>Reading traces\<close>

text \<open>The effects of the playback part of the handler (lines 173-201).\<close>

fun is_playback :: "event \<Rightarrow> bool" where
  "is_playback (SourceStop i) = True"
| "is_playback (SourceStart i t) = True"
| "is_playback e = False"

text \<open>The values passed to \<^verbatim>\<open>onCommand\<close> (line 152), in order.\<close>

fun invoked :: "event list \<Rightarrow> js_value list" where
  "invoked [] = []"
| "invoked (OnCommand v # evs) = v # invoked evs"
| "invoked (e # evs) = invoked evs"

text \<open>The start times passed to \<^verbatim>\<open>source.start\<close> (line 198), in order.\<close>

fun start_times :: "event list \<Rightarrow> real list" where
  "start_times [] = []"
| "start_times (SourceStart i t # evs) = t # start_times evs"
| "start_times (e # evs) = start_times evs"

section \<open>Example messages and a concrete session\<close>

text \<open>A message that carries tool-call requests and nothing else.\<close>

definition request_message :: "function_call list \<Rightarrow> live_server_message" where
  "request_message fcs = \<lparr>toolCall = Some \<lparr>functionCalls = Some fcs\<rparr>, serverContent = None\<rparr>"

text \<open>A message that carries one inlined audio payload and nothing else.\<close>

definition audio_message :: "string \<Rightarrow> live_server_message" where
  "audio_message payload =
     \<lparr>toolCall = None,
      serverContent = Some
        \<lparr>interrupted = None,
         modelTurn = Some \<lparr>parts = Some [\<lparr>inlineData = Some \<lparr>data = Some payload\<rparr>\<rparr>]\<rparr>\<rparr>\<rparr>"


text \<open>
  A service on which \<^verbatim>\<open>connect\<close> has completed: the analyser was silent, the
  animation frame got identifier 1, the microphone has one track.
\<close>

definition connected :: service where
  "connected = state_of (connect [] 1 (Some \<lparr>tracks = 1\<rparr>) Fenrir new_service)"

text \<open>A decoder all of whose buffers last one second.\<close>

definition one_second :: "string \<Rightarrow> real" where
  "one_second payload = 1"

text \<open>
  The concrete session after one audio message, handled when the output clock read 3:
  one source is scheduled and the cursor is at 4.
\<close>

definition playing :: service where
  "playing = state_of (handleServerMessage one_second 3 connected (audio_message ''AAAA''))"

section \<open>Sequences of messages\<close>

text \<open>
  The \<^verbatim>\<open>onmessage\<close> callback (lines 97-99) runs the handler once for each message the
  session delivers, each with the reading of the output clock at that moment; a
  handler that throws does not keep the later messages from being handled.
\<close>

fun handle_all ::
  "(string \<Rightarrow> real) \<Rightarrow> service \<Rightarrow> (real \<times> live_server_message) list \<Rightarrow> service \<times> event list" where
  "handle_all duration s [] = (s, [])"
| "handle_all duration s ((currentTime, message) # rest) =
     (case handleServerMessage duration currentTime s message of
        (s', evs, c) \<Rightarrow>
          (case handle_all duration s' rest of (s'', evs') \<Rightarrow> (s'', evs @ evs')))"

text \<open>
  A message that makes the handler enqueue audio: it conforms, does not signal
  interruption, and its payload is a non-empty string (line 184).
\<close>

definition carries_audio :: "live_server_message \<Rightarrow> bool" where
  "carries_audio message =
     (conforms message \<and> \<not> signals_interruption message \<and>
      (case base64Audio message of None \<Rightarrow> False | Some payload \<Rightarrow> payload \<noteq> []))"

definition payload_of :: "live_server_message \<Rightarrow> string" where
  "payload_of message = (case base64Audio message of None \<Rightarrow> [] | Some payload \<Rightarrow> payload)"

text \<open>
  The scheduler as section 4.2 of the specification words it: from a cursor and the
  list of (clock reading, duration), \<open>startTime = max(nextStartTime, outputClockNow)\<close>
  and then \<open>nextStartTime = startTime + duration\<close>. \<open>schedule\<close> lists the start
  times, \<open>cursor_after\<close> is the final cursor.
\<close>

fun schedule :: "real \<Rightarrow> (real \<times> real) list \<Rightarrow> real list" where
  "schedule cursor [] = []"
| "schedule cursor ((now, d) # rest) = max cursor now # schedule (max cursor now + d) rest"

fun cursor_after :: "real \<Rightarrow> (real \<times> real) list \<Rightarrow> real" where
  "cursor_after cursor [] = cursor"
| "cursor_after cursor ((now, d) # rest) = cursor_after (max cursor now + d) rest"

definition timing :: "(string \<Rightarrow> real) \<Rightarrow> (real \<times> live_server_message) list \<Rightarrow> (real \<times> real) list" where
  "timing duration ms = map (\<lambda>(now, message). (now, duration (payload_of message))) ms"

section \<open>The PCM codec\<close>

text \<open>
  The module \<^verbatim>\<open>audioUtils\<close> (\<^verbatim>\<open>createBlob\<close>, \<^verbatim>\<open>decodePCM\<close>,
  \<^verbatim>\<open>createAudioBuffer\<close>; imported at line 2) is not among the sources. The codec
  below follows section 4.1 of the specification, which leaves two things open: how
  a scaled sample becomes an integer, and by what number the decoder divides. Both
  are parameters here. Samples are reals, bytes are integers from 0 to 255.
\<close>

text \<open>
  Modelled from the spec: the clamping step of \<^verbatim>\<open>encode\<close> in the missing
  \<^verbatim>\<open>audioUtils\<close>, ``clamping to [-1,1]''.
\<close>

definition clamp :: "real \<Rightarrow> real" where
  "clamp x = max (- 1) (min 1 x)"

text \<open>
  Modelled from the spec: the byte layout of \<^verbatim>\<open>encode\<close> in the missing
  \<^verbatim>\<open>audioUtils\<close>, ``a 16-bit signed little-endian integer'': the two's complement
  of \<open>q\<close> in 16 bits, low byte first.
\<close>

definition int16_bytes :: "int \<Rightarrow> int list" where
  "int16_bytes q = (let u = q mod 65536 in [u mod 256, u div 256])"

text \<open>
  Modelled from the spec: the reading step of \<^verbatim>\<open>bytesToAudioBuffer\<close> in the missing
  \<^verbatim>\<open>audioUtils\<close>, ``reinterprets raw bytes as 16-bit little-endian signed
  integers''.
\<close>

definition bytes_int16 :: "int \<Rightarrow> int \<Rightarrow> int" where
  "bytes_int16 lo hi = (let u = lo + 256 * hi in if u < 32768 then u else u - 65536)"

text \<open>
  Modelled from the spec: \<^verbatim>\<open>encode\<close> of the missing \<^verbatim>\<open>audioUtils\<close>, without the
  transport envelope: ``converts each sample to a 16-bit signed little-endian integer
  by clamping to [-1,1] and scaling by 32767, concatenates the bytes''. \<open>to_int\<close> is
  the conversion to an integer.
\<close>

definition encode :: "(real \<Rightarrow> int) \<Rightarrow> real list \<Rightarrow> int list" where
  "encode to_int samples = concat (map (\<lambda>x. int16_bytes (to_int (clamp x * 32767))) samples)"

text \<open>
  Modelled from the spec: \<^verbatim>\<open>bytesToAudioBuffer\<close> of the missing \<^verbatim>\<open>audioUtils\<close>:
  ``reinterprets raw bytes as 16-bit little-endian signed integers and rescales to
  [-1,1] floats'', ``truncating the final incomplete sample silently''. \<open>divisor\<close> is
  the number the decoder divides by.
\<close>

fun bytesToAudioBuffer :: "real \<Rightarrow> int list \<Rightarrow> real list" where
  "bytesToAudioBuffer divisor (lo # hi # rest) =
     real_of_int (bytes_int16 lo hi) / divisor # bytesToAudioBuffer divisor rest"
| "bytesToAudioBuffer divisor rest = []"

text \<open>One conversion to an integer: truncation toward zero.\<close>

definition toward_zero :: "real \<Rightarrow> int" where
  "toward_zero x = (if 0 \<le> x then \<lfloor>x\<rfloor> else \<lceil>x\<rceil>)"

section \<open>Properties\<close>

subsection \<open>The tool-call loop\<close>

lemma get_command_Inr: "has_arguments fc \<Longrightarrow> get_command (fc_args fc) = Inr (command_of fc)"
  by (cases "fc_args fc") (auto simp: has_arguments_def command_of_def split: option.splits)

lemma get_command_Inl: "\<not> has_arguments fc \<Longrightarrow> get_command (fc_args fc) = Inl TypeError"
  by (cases "fc_args fc") (auto simp: has_arguments_def)

lemma tool_loop_conforming:
  "conforming fcs \<Longrightarrow>
   tool_loop fcs evs rs =
     ((evs @ map (\<lambda>fc. OnCommand (command_of fc)) (filter is_system_command fcs),
       rs @ map acknowledgment (filter is_system_command fcs)), Returned)"
proof (induction fcs arbitrary: evs rs)
  case Nil
  then show ?case by simp
next
  case (Cons fc fcs)
  show ?case
  proof (cases "is_system_command fc")
    case True
    with Cons.prems have a: "has_arguments fc" and c: "conforming fcs"
      by (simp_all add: conforming_def)
    from True a Cons.IH [OF c] show ?thesis
      by (simp add: is_system_command_def [symmetric] get_command_Inr)
  next
    case False
    with Cons.prems have c: "conforming fcs"
      by (simp add: conforming_def)
    from False Cons.IH [OF c] show ?thesis
      by (simp add: is_system_command_def [symmetric])
  qed
qed

lemma tool_loop_throws:
  "\<not> conforming fcs \<Longrightarrow> snd (tool_loop fcs evs rs) = Threw TypeError"
proof (induction fcs arbitrary: evs rs)
  case Nil
  then show ?case by (simp add: conforming_def)
next
  case (Cons fc fcs)
  show ?case
  proof (cases "is_system_command fc \<and> \<not> has_arguments fc")
    case True
    then show ?thesis
      by (simp add: is_system_command_def [symmetric] get_command_Inl)
  next
    case False
    with Cons.prems have c: "\<not> conforming fcs"
      by (auto simp: conforming_def split: if_splits)
    from False Cons.IH [OF c] show ?thesis
      by (auto simp: is_system_command_def [symmetric] get_command_Inr)
  qed
qed

lemma handle_tool_calls_conforms:
  assumes "conforms message"
  shows "snd (handle_tool_calls message) = Returned"
  using assms
  by (auto simp: handle_tool_calls_def conforms_def tool_loop_conforming split: option.splits)

lemma handle_tool_calls_throws:
  assumes "\<not> conforms message"
  shows "snd (handle_tool_calls message) = Threw TypeError"
proof -
  from assms obtain tc where tc: "toolCall message = Some tc"
    by (auto simp: conforms_def split: option.splits)
  show ?thesis
  proof (cases "functionCalls tc")
    case None
    with tc show ?thesis by (simp add: handle_tool_calls_def)
  next
    case (Some fcs)
    with tc assms have "\<not> conforming fcs" by (simp add: conforms_def)
    from tool_loop_throws [OF this, of "[]" "[]"] tc Some show ?thesis
      by (simp add: handle_tool_calls_def)
  qed
qed

lemma handle_tool_calls_requests:
  assumes "toolCall message = Some tc" and "functionCalls tc = Some fcs" and "conforming fcs"
  shows "handle_tool_calls message =
    ((map (\<lambda>fc. OnCommand (command_of fc)) (filter is_system_command fcs),
      map acknowledgment (filter is_system_command fcs)), Returned)"
  using assms by (simp add: handle_tool_calls_def tool_loop_conforming)

subsection \<open>The concrete session\<close>

lemma connected_simps:
  "sessionPromise connected = Some \<lparr>voiceName = Fenrir\<rparr>"
  "outputAudioContext connected = Some \<lparr>sampleRate = 24000, closed = False\<rparr>"
  "inputAudioContext connected = Some \<lparr>sampleRate = 16000, closed = False\<rparr>"
  "outputNode connected = Some ()"
  "activeStream connected = Some \<lparr>tracks = 1\<rparr>"
  "processor connected = None"
  "nextStartTime connected = 0"
  "sources connected = []"
  "fresh connected = 0"
  by (simp_all add: connected_def connect_def connect_setup_def connect_session_def
      updateVisualizer_def new_service_def state_of_def)

subsection \<open>The handler, case by case\<close>

lemma handler_throws:
  assumes "\<not> conforms message"
  shows "handleServerMessage duration currentTime s message =
    (s, fst (fst (handle_tool_calls message)), Threw TypeError)"
  using handle_tool_calls_throws [OF assms]
  by (cases "handle_tool_calls message") (auto simp: handleServerMessage_def Let_def)

lemma handler_guard:
  assumes "conforms message" and "outputAudioContext s = None \<or> outputNode s = None"
  shows "handleServerMessage duration currentTime s message =
    (s,
     fst (fst (handle_tool_calls message)) @
       deferred_send s (snd (fst (handle_tool_calls message))),
     Returned)"
  using handle_tool_calls_conforms [OF assms(1)] assms(2)
  by (cases "handle_tool_calls message") (auto simp: handleServerMessage_def Let_def)

lemma handler_interrupt:
  assumes "conforms message" and "outputAudioContext s \<noteq> None" and "outputNode s \<noteq> None"
    and "signals_interruption message"
  shows "handleServerMessage duration currentTime s message =
    (s\<lparr>sources := [], nextStartTime := 0\<rparr>,
     fst (fst (handle_tool_calls message)) @
       map (\<lambda>source. SourceStop (src_id source)) (sources s) @
       deferred_send s (snd (fst (handle_tool_calls message))),
     Returned)"
  using handle_tool_calls_conforms [OF assms(1)] assms(2-)
  by (cases "handle_tool_calls message") (auto simp: handleServerMessage_def interrupt_def Let_def)

lemma handler_audio:
  assumes "conforms message" and "outputAudioContext s \<noteq> None" and "outputNode s \<noteq> None"
    and "\<not> signals_interruption message"
    and "base64Audio message = Some payload" and "payload \<noteq> []"
  shows "handleServerMessage duration currentTime s message =
    (s\<lparr>nextStartTime := max (nextStartTime s) currentTime + duration payload,
       sources := add_source \<lparr>src_id = fresh s, src_duration = duration payload\<rparr> (sources s),
       fresh := Suc (fresh s)\<rparr>,
     fst (fst (handle_tool_calls message)) @
       deferred_send s (snd (fst (handle_tool_calls message))) @
       [SourceStart (fresh s) (max (nextStartTime s) currentTime)],
     Returned)"
  using handle_tool_calls_conforms [OF assms(1)] assms(2-)
  by (cases "handle_tool_calls message")
    (auto simp: handleServerMessage_def enqueue_def Let_def)

lemma handler_silent:
  assumes "conforms message" and "\<not> signals_interruption message"
    and "base64Audio message = None \<or> base64Audio message = Some []"
  shows "handleServerMessage duration currentTime s message =
    (s,
     fst (fst (handle_tool_calls message)) @
       deferred_send s (snd (fst (handle_tool_calls message))),
     Returned)"
  using handle_tool_calls_conforms [OF assms(1)] assms(2-)
  by (cases "handle_tool_calls message") (auto simp: handleServerMessage_def Let_def)

text \<open>
  The trace of a message that conforms: the callbacks, then the deferred send, with
  playback effects before or after the send.
\<close>

lemma handler_trace:
  assumes "conforms message"
  shows "\<exists>before after.
      events_of (handleServerMessage duration currentTime s message) =
        fst (fst (handle_tool_calls message)) @ before @
        deferred_send s (snd (fst (handle_tool_calls message))) @ after \<and>
      list_all is_playback before \<and> list_all is_playback after \<and>
    completion_of (handleServerMessage duration currentTime s message) = Returned"
proof (cases "outputAudioContext s = None \<or> outputNode s = None")
  case True
  from handler_guard [OF assms True, of duration currentTime]
  have "events_of (handleServerMessage duration currentTime s message) =
      fst (fst (handle_tool_calls message)) @ [] @
      deferred_send s (snd (fst (handle_tool_calls message))) @ []"
    and "completion_of (handleServerMessage duration currentTime s message) = Returned"
    by (simp_all add: events_of_def completion_of_def)
  moreover have "list_all is_playback []" by simp
  ultimately show ?thesis by blast
next
  case ctx: False
  show ?thesis
  proof (cases "signals_interruption message")
    case True
    let ?stops = "map (\<lambda>source. SourceStop (src_id source)) (sources s)"
    from handler_interrupt [OF assms _ _ True, of s duration currentTime] ctx
    have "events_of (handleServerMessage duration currentTime s message) =
        fst (fst (handle_tool_calls message)) @ ?stops @
        deferred_send s (snd (fst (handle_tool_calls message))) @ []"
      and "completion_of (handleServerMessage duration currentTime s message) = Returned"
      by (simp_all add: events_of_def completion_of_def)
    moreover have "list_all is_playback ?stops"
      by (simp add: list_all_iff)
    moreover have "list_all is_playback []" by simp
    ultimately show ?thesis by blast
  next
    case quiet: False
    show ?thesis
    proof (cases "base64Audio message = None \<or> base64Audio message = Some []")
      case True
      from handler_silent [OF assms quiet True, of duration currentTime s]
      have "events_of (handleServerMessage duration currentTime s message) =
          fst (fst (handle_tool_calls message)) @ [] @
          deferred_send s (snd (fst (handle_tool_calls message))) @ []"
        and "completion_of (handleServerMessage duration currentTime s message) = Returned"
        by (simp_all add: events_of_def completion_of_def)
      moreover have "list_all is_playback []" by simp
      ultimately show ?thesis by blast
    next
      case False
      then obtain payload where "base64Audio message = Some payload" "payload \<noteq> []"
        by auto
      with handler_audio [OF assms _ _ quiet, of s payload duration currentTime] ctx
      have "events_of (handleServerMessage duration currentTime s message) =
          fst (fst (handle_tool_calls message)) @ [] @
          deferred_send s (snd (fst (handle_tool_calls message))) @
          [SourceStart (fresh s) (max (nextStartTime s) currentTime)]"
        and "completion_of (handleServerMessage duration currentTime s message) = Returned"
        by (simp_all add: events_of_def completion_of_def)
      moreover have "list_all is_playback [SourceStart (fresh s) (max (nextStartTime s) currentTime)]"
        by simp
      moreover have "list_all is_playback []" by simp
      ultimately show ?thesis by blast
    qed
  qed
qed

subsection \<open>Reading traces\<close>

lemma start_times_append: "start_times (xs @ ys) = start_times xs @ start_times ys"
  by (induction xs rule: start_times.induct) simp_all

lemma invoked_append: "invoked (xs @ ys) = invoked xs @ invoked ys"
  by (induction xs rule: invoked.induct) simp_all

lemma invoked_playback: "list_all is_playback xs \<Longrightarrow> invoked xs = []"
  by (induction xs rule: invoked.induct) simp_all

lemma invoked_send: "invoked (deferred_send s responses) = []"
  by (simp add: deferred_send_def)

lemma invoked_commands: "invoked (map (\<lambda>fc. OnCommand (command_of fc)) fcs) = map command_of fcs"
  by (induction fcs) simp_all

lemma start_times_tool_loop:
  "start_times (fst (fst (tool_loop fcs evs rs))) = start_times evs"
  by (induction fcs arbitrary: evs rs) (auto simp: start_times_append split: sum.splits)

lemma start_times_tool_calls: "start_times (fst (fst (handle_tool_calls message))) = []"
  by (simp add: handle_tool_calls_def start_times_tool_loop split: option.splits)

lemma start_times_send: "start_times (deferred_send s responses) = []"
  by (simp add: deferred_send_def)


subsection \<open>disconnect, run without interleaving\<close>

lemma muted_fields:
  "inputAudioContext (muted s) = inputAudioContext s"
  "outputAudioContext (muted s) = outputAudioContext s"
  "sessionPromise (muted s) = sessionPromise s"
  "outputNode (muted s) = outputNode s"
  "analyser (muted s) = analyser s"
  "nextStartTime (muted s) = nextStartTime s"
  "sources (muted s) = sources s"
  "activeStream (muted s) = activeStream s"
  "animationFrameId (muted s) = animationFrameId s"
  "fresh (muted s) = fresh s"
  by (simp_all add: muted_def split: option.splits)

text \<open>When no referenced context is closed, the call runs through both awaits.\<close>

lemma disconnect_open:
  assumes "open_contexts s"
  shows "\<exists>evs. disconnect s =
    ((muted s)\<lparr>sources := [], activeStream := None,
       inputAudioContext := None, outputAudioContext := None\<rparr>, evs, Finished)"
proof (cases "inputAudioContext s")
  case None
  show ?thesis
  proof (cases "outputAudioContext s")
    case no_output: None
    with None show ?thesis
      by (simp add: disconnect_def disconnect_start_def disconnect_output_def
          disconnect_finish_def Let_def muted_fields)
  next
    case (Some d)
    with assms have "\<not> closed d" by (simp add: open_contexts_def)
    with None Some show ?thesis
      by (simp add: disconnect_def disconnect_start_def disconnect_output_def
          disconnect_finish_def Let_def muted_fields)
  qed
next
  case (Some c)
  with assms have c: "\<not> closed c" by (simp add: open_contexts_def)
  show ?thesis
  proof (cases "outputAudioContext s")
    case None
    with Some c show ?thesis
      by (simp add: disconnect_def disconnect_start_def disconnect_output_def
          disconnect_finish_def Let_def muted_fields)
  next
    case out: (Some d)
    with assms have "\<not> closed d" by (simp add: open_contexts_def)
    with Some c out show ?thesis
      by (simp add: disconnect_def disconnect_start_def disconnect_output_def
          disconnect_finish_def Let_def muted_fields)
  qed
qed

lemma disconnect_state:
  assumes "open_contexts s"
  shows "state_of (disconnect s) =
      (muted s)\<lparr>sources := [], activeStream := None,
        inputAudioContext := None, outputAudioContext := None\<rparr>"
    and "completion_of (disconnect s) = Finished"
  using disconnect_open [OF assms] by (auto simp: state_of_def completion_of_def)

text \<open>
  Run without interleaving, a call always settles; and when it has finished, it has
  cleared the fields, whatever state it began in.
\<close>

lemma disconnect_settles: "completion_of (disconnect s) \<noteq> Suspended k"
  by (auto simp: disconnect_def disconnect_start_def disconnect_output_def disconnect_finish_def
      Let_def muted_fields completion_of_def split: option.splits)

lemma disconnect_finished:
  assumes "completion_of (disconnect s) = Finished"
  shows "outputAudioContext (state_of (disconnect s)) = None \<and>
    inputAudioContext (state_of (disconnect s)) = None \<and>
    activeStream (state_of (disconnect s)) = None \<and>
    sources (state_of (disconnect s)) = [] \<and>
    sessionPromise (state_of (disconnect s)) = sessionPromise s"
  using assms
  by (auto simp: disconnect_def disconnect_start_def disconnect_output_def disconnect_finish_def
      Let_def muted_fields state_of_def completion_of_def split: option.splits if_splits)

subsection \<open>An invariant of the reachable states\<close>

lemma handler_state:
  "state_of (handleServerMessage duration currentTime s message) = s \<or>
   (outputAudioContext s \<noteq> None \<and> outputNode s \<noteq> None \<and>
     (state_of (handleServerMessage duration currentTime s message) =
        s\<lparr>sources := [], nextStartTime := 0\<rparr> \<or>
      (\<exists>payload. state_of (handleServerMessage duration currentTime s message) =
        s\<lparr>nextStartTime := max (nextStartTime s) currentTime + duration payload,
          sources := add_source \<lparr>src_id = fresh s, src_duration = duration payload\<rparr> (sources s),
          fresh := Suc (fresh s)\<rparr>)))"
proof (cases "conforms message")
  case False
  from handler_throws [OF False] show ?thesis by (simp add: state_of_def)
next
  case c: True
  show ?thesis
  proof (cases "outputAudioContext s = None \<or> outputNode s = None")
    case True
    from handler_guard [OF c True] show ?thesis by (simp add: state_of_def)
  next
    case ctx: False
    show ?thesis
    proof (cases "signals_interruption message")
      case True
      with handler_interrupt [OF c _ _ True, of s] ctx show ?thesis
        by (simp add: state_of_def)
    next
      case quiet: False
      show ?thesis
      proof (cases "base64Audio message = None \<or> base64Audio message = Some []")
        case True
        from handler_silent [OF c quiet True] show ?thesis by (simp add: state_of_def)
      next
        case False
        then obtain payload where "base64Audio message = Some payload" "payload \<noteq> []"
          by auto
        with handler_audio [OF c _ _ quiet, of s payload] ctx show ?thesis
          by (auto simp: state_of_def)
      qed
    qed
  qed
qed

lemma invariant_handler:
  assumes "service_invariant s"
  shows "service_invariant (state_of (handleServerMessage duration currentTime s message))"
  using handler_state [of duration currentTime s message] assms
  by (auto simp: service_invariant_def)

lemma invariant_finish:
  assumes "service_invariant s"
  shows "service_invariant (state_of (disconnect_finish s))"
  using assms by (simp add: service_invariant_def disconnect_finish_def state_of_def)

lemma invariant_output:
  assumes "service_invariant s"
  shows "service_invariant (state_of (disconnect_output s))"
proof (cases "outputAudioContext s")
  case None
  with invariant_finish [OF assms] show ?thesis
    by (simp add: disconnect_output_def)
next
  case (Some c)
  with assms show ?thesis
    by (simp add: disconnect_output_def service_invariant_def state_of_def)
qed

lemma invariant_muted:
  assumes "service_invariant s"
  shows "service_invariant (muted s)"
  using assms by (simp add: service_invariant_def muted_fields)

lemma invariant_disconnect_start:
  assumes "service_invariant s"
  shows "service_invariant (state_of (disconnect_start s))"
proof (cases "inputAudioContext s")
  case None
  have "state_of (disconnect_start s) = state_of (disconnect_output (muted s))"
    using None
    by (cases "disconnect_output (muted s)")
      (simp add: disconnect_start_def Let_def muted_fields state_of_def)
  with invariant_output [OF invariant_muted [OF assms]] show ?thesis by simp
next
  case (Some c)
  with invariant_muted [OF assms] show ?thesis
    by (simp add: disconnect_start_def Let_def muted_fields service_invariant_def state_of_def)
qed

lemma invariant_resume:
  assumes "service_invariant s"
  shows "service_invariant (state_of (disconnect_resume k s))"
  using invariant_output [OF assms] invariant_finish [OF assms] by (cases k) simp_all

lemma invariant_tick:
  assumes "service_invariant s"
  shows "service_invariant (fst (updateVisualizer spectrum frame s))"
  using assms
  by (auto simp: service_invariant_def updateVisualizer_def split: option.splits)

lemma invariant_setup:
  "service_invariant (fst (connect_setup spectrum frame s))"
  by (simp add: service_invariant_def connect_setup_def updateVisualizer_def)

lemma invariant_session:
  assumes "service_invariant s"
  shows "service_invariant (fst (connect_session microphone voice s))"
  using assms
  by (auto simp: service_invariant_def connect_session_def split: option.splits)

lemma invariant_open:
  assumes "service_invariant s"
  shows "service_invariant (fst (onopen s))"
  using assms
  by (auto simp: service_invariant_def onopen_def startInputStreaming_def)

lemma invariant_ended:
  assumes "service_invariant s"
  shows "service_invariant (source_ended i s)"
  using assms
  by (auto simp: service_invariant_def source_ended_def)

lemma reachable_invariant: "reachable s \<Longrightarrow> service_invariant s"
proof (induction rule: reachable.induct)
  case r_new
  show ?case
    by (simp add: service_invariant_def new_service_def)
qed (simp_all add: invariant_setup invariant_session invariant_open invariant_handler
    invariant_ended invariant_tick invariant_disconnect_start invariant_resume)

subsection \<open>Example messages\<close>

lemma request_message_simps:
  "toolCall (request_message fcs) = Some \<lparr>functionCalls = Some fcs\<rparr>"
  "base64Audio (request_message fcs) = None"
  "\<not> signals_interruption (request_message fcs)"
  "conforms (request_message fcs) = conforming fcs"
  by (simp_all add: request_message_def base64Audio_def signals_interruption_def conforms_def)

lemma audio_message_simps:
  "toolCall (audio_message payload) = None"
  "base64Audio (audio_message payload) = Some payload"
  "\<not> signals_interruption (audio_message payload)"
  "conforms (audio_message payload)"
  "handle_tool_calls (audio_message payload) = (([], []), Returned)"
  by (simp_all add: audio_message_def base64Audio_def signals_interruption_def conforms_def
      handle_tool_calls_def)


lemma reachable_connect:
  assumes "reachable s"
  shows "reachable (state_of (connect spectrum frame microphone voice s))"
proof -
  have "state_of (connect spectrum frame microphone voice s) =
    fst (connect_session microphone voice (fst (connect_setup spectrum frame s)))"
    by (cases "connect_setup spectrum frame s";
        cases "connect_session microphone voice (fst (connect_setup spectrum frame s))")
      (simp add: connect_def state_of_def)
  with r_session [OF r_setup [OF assms]] show ?thesis by simp
qed

lemma reachable_connected: "reachable connected"
  unfolding connected_def by (rule reachable_connect [OF r_new])

lemma playing_eq:
  "playing = connected\<lparr>nextStartTime := 4,
      sources := [\<lparr>src_id = 0, src_duration = 1\<rparr>], fresh := Suc 0\<rparr>"
  using handler_audio [of "audio_message ''AAAA''" connected "''AAAA''" one_second 3]
  by (simp add: playing_def audio_message_simps connected_simps state_of_def one_second_def
      add_source_def deferred_send_def)


lemma open_contexts_playing: "open_contexts playing"
  by (simp add: open_contexts_def playing_eq connected_simps)

subsection \<open>Tool-call acknowledgments\<close>




subsection \<open>Tool routing\<close>

text \<open>
  A request for the system-command tool whose command is none of the three literals
  reaches \<^verbatim>\<open>onCommand\<close> all the same, and is acknowledged: line 151 casts the
  value and nothing checks it.
\<close>

theorem unrecognized_command_is_routed:
  "events_of (handleServerMessage one_second 0 connected
     (request_message
       [\<lparr>fc_id = Some ''1'', fc_name = Some ''executeSystemCommand'',
         fc_args = JObj [(''command'', JStr ''invalid'')]\<rparr>])) =
     [OnCommand (JStr ''invalid''),
      SendToolResponse
        [\<lparr>fr_id = Some ''1'', fr_name = Some ''executeSystemCommand'',
          fr_result = ''Command executed successfully''\<rparr>]] \<and>
   \<not> recognized_command (JStr ''invalid'')"
  by (simp add: handleServerMessage_def handle_tool_calls_def request_message_simps
      connected_simps events_of_def recognized_command_def acknowledgment_def deferred_send_def)

text \<open>
  C1, as the code has it. For every message, whatever else it carries, in which every
  request named \<^verbatim>\<open>executeSystemCommand\<close> carries an argument object: \<^verbatim>\<open>onCommand\<close> is
  invoked exactly once for each request named \<^verbatim>\<open>executeSystemCommand\<close>, in the order
  of the requests, with the value of that request's \<^verbatim>\<open>command\<close> field whatever it
  is, and it is not invoked for a request with any other name. The value is the
  field as it stands: any \<open>v\<close> stored under \<^verbatim>\<open>command\<close> is what is passed. The
  handler hands no command back to its caller.
\<close>

theorem tool_routing:
  assumes "toolCall message = Some tc" and "functionCalls tc = Some fcs" and "conforming fcs"
  shows "invoked (events_of (handleServerMessage duration currentTime s message)) =
      map command_of (filter is_system_command fcs) \<and>
    completion_of (handleServerMessage duration currentTime s message) = Returned \<and>
    (\<forall>fc v kvs. command_of (fc\<lparr>fc_args := JObj ((''command'', v) # kvs)\<rparr>) = v)"
proof -
  from assms have c: "conforms message"
    by (simp add: conforms_def)
  from handler_trace [OF c, of duration currentTime s] handle_tool_calls_requests [OF assms]
  have "invoked (events_of (handleServerMessage duration currentTime s message)) =
      map command_of (filter is_system_command fcs)"
    and "completion_of (handleServerMessage duration currentTime s message) = Returned"
    by (auto simp: invoked_append invoked_playback invoked_send invoked_commands)
  moreover have "\<forall>fc v kvs. command_of (fc\<lparr>fc_args := JObj ((''command'', v) # kvs)\<rparr>) = v"
    by (simp add: command_of_def)
  ultimately show ?thesis by blast
qed

theorem tool_routing_witness:
  "conforming
     [\<lparr>fc_id = Some ''7'', fc_name = Some ''executeSystemCommand'',
       fc_args = JObj [(''command'', JStr ''restart'')]\<rparr>,
      \<lparr>fc_id = Some ''8'', fc_name = Some ''searchWeb'', fc_args = JNull\<rparr>,
      \<lparr>fc_id = Some ''9'', fc_name = Some ''executeSystemCommand'',
       fc_args = JObj [(''command'', JStr ''invalid'')]\<rparr>] \<and>
   invoked (events_of (handleServerMessage one_second 5 playing
     \<lparr>toolCall = Some \<lparr>functionCalls = Some
        [\<lparr>fc_id = Some ''7'', fc_name = Some ''executeSystemCommand'',
          fc_args = JObj [(''command'', JStr ''restart'')]\<rparr>,
         \<lparr>fc_id = Some ''8'', fc_name = Some ''searchWeb'', fc_args = JNull\<rparr>,
         \<lparr>fc_id = Some ''9'', fc_name = Some ''executeSystemCommand'',
          fc_args = JObj [(''command'', JStr ''invalid'')]\<rparr>]\<rparr>,
      serverContent = Some
        \<lparr>interrupted = None,
         modelTurn = Some \<lparr>parts = Some [\<lparr>inlineData = Some \<lparr>data = Some ''BBBB''\<rparr>\<rparr>]\<rparr>\<rparr>\<rparr>)) =
     [JStr ''restart'', JStr ''invalid'']"
proof -
  let ?fcs = "[\<lparr>fc_id = Some ''7'', fc_name = Some ''executeSystemCommand'',
       fc_args = JObj [(''command'', JStr ''restart'')]\<rparr>,
      \<lparr>fc_id = Some ''8'', fc_name = Some ''searchWeb'', fc_args = JNull\<rparr>,
      \<lparr>fc_id = Some ''9'', fc_name = Some ''executeSystemCommand'',
       fc_args = JObj [(''command'', JStr ''invalid'')]\<rparr>]"
  have c: "conforming ?fcs"
    by (simp add: conforming_def is_system_command_def has_arguments_def)
  from tool_routing [where duration = one_second and currentTime = 5 and s = playing
      and tc = "\<lparr>functionCalls = Some ?fcs\<rparr>", OF _ _ c] c
  show ?thesis
    by (simp add: is_system_command_def command_of_def)
qed

subsection \<open>Interruption\<close>

text \<open>
  C3. When the handler performs the interruption (there are an output context and an
  output node, and the message signals interruption), it stops every source that is
  in the set, in order, and leaves the set empty and \<^verbatim>\<open>nextStartTime\<close> at 0; the
  audio message handled next then starts its source at \<open>max 0 currentTime'\<close>, a
  value in which the cursor of the state before the interruption does not occur.
\<close>

theorem interruption_clears_playback:
  assumes "outputAudioContext s \<noteq> None" and "outputNode s \<noteq> None"
    and "conforms message" and "signals_interruption message"
    and "conforms message'" and "\<not> signals_interruption message'"
    and "base64Audio message' = Some payload" and "payload \<noteq> []"
  shows "sources (state_of (handleServerMessage duration currentTime s message)) = [] \<and>
    nextStartTime (state_of (handleServerMessage duration currentTime s message)) = 0 \<and>
    events_of (handleServerMessage duration currentTime s message) =
      fst (fst (handle_tool_calls message)) @
      map (\<lambda>source. SourceStop (src_id source)) (sources s) @
      deferred_send s (snd (fst (handle_tool_calls message))) \<and>
    start_times
      (events_of (handleServerMessage duration' currentTime'
        (state_of (handleServerMessage duration currentTime s message)) message')) =
      [max 0 currentTime']"
proof -
  let ?s' = "state_of (handleServerMessage duration currentTime s message)"
  have s': "?s' = s\<lparr>sources := [], nextStartTime := 0\<rparr>"
    and e: "events_of (handleServerMessage duration currentTime s message) =
      fst (fst (handle_tool_calls message)) @
      map (\<lambda>source. SourceStop (src_id source)) (sources s) @
      deferred_send s (snd (fst (handle_tool_calls message)))"
    using handler_interrupt [OF assms(3) assms(1) assms(2) assms(4), of duration currentTime]
    by (simp_all add: state_of_def events_of_def)
  from s' assms(1,2) have ctx: "outputAudioContext ?s' \<noteq> None" "outputNode ?s' \<noteq> None"
    by simp_all
  from handler_audio [OF assms(5) ctx assms(6-8), of duration' currentTime'] s'
  have "start_times (events_of (handleServerMessage duration' currentTime' ?s' message')) =
    [max 0 currentTime']"
    by (simp add: events_of_def start_times_append start_times_tool_calls start_times_send)
  with s' e show ?thesis by simp
qed

theorem interruption_clears_playback_witness:
  "outputAudioContext playing \<noteq> None \<and> outputNode playing \<noteq> None \<and>
   nextStartTime playing = 4 \<and>
   conforms \<lparr>toolCall = None, serverContent = Some \<lparr>interrupted = Some True, modelTurn = None\<rparr>\<rparr> \<and>
   signals_interruption
     \<lparr>toolCall = None, serverContent = Some \<lparr>interrupted = Some True, modelTurn = None\<rparr>\<rparr> \<and>
   conforms (audio_message ''BBBB'') \<and>
   \<not> signals_interruption (audio_message ''BBBB'') \<and>
   base64Audio (audio_message ''BBBB'') = Some ''BBBB'' \<and>
   events_of (handleServerMessage one_second 5 playing
     \<lparr>toolCall = None, serverContent = Some \<lparr>interrupted = Some True, modelTurn = None\<rparr>\<rparr>) =
     [SourceStop 0] \<and>
   start_times
     (events_of (handleServerMessage one_second 7
       (state_of (handleServerMessage one_second 5 playing
         \<lparr>toolCall = None, serverContent = Some \<lparr>interrupted = Some True, modelTurn = None\<rparr>\<rparr>))
       (audio_message ''BBBB''))) = [7]"
proof -
  let ?m = "\<lparr>toolCall = None, serverContent = Some \<lparr>interrupted = Some True, modelTurn = None\<rparr>\<rparr>"
  have h1: "outputAudioContext playing \<noteq> None" and h2: "outputNode playing \<noteq> None"
    and n: "nextStartTime playing = 4"
    and src: "sources playing = [\<lparr>src_id = 0, src_duration = 1\<rparr>]"
    by (simp_all add: playing_eq connected_simps)
  have h3: "conforms ?m" and h4: "signals_interruption ?m"
    by (simp_all add: conforms_def signals_interruption_def)
  have t: "handle_tool_calls ?m = (([], []), Returned)"
    by (simp add: handle_tool_calls_def)
  from interruption_clears_playback [where duration = one_second and currentTime = 5
      and duration' = one_second and currentTime' = 7 and payload = "''BBBB''",
      OF h1 h2 h3 h4 audio_message_simps(4,3,2)]
    h1 h2 n h3 h4 t src
  show ?thesis
    by (simp add: audio_message_simps deferred_send_def)
qed

subsection \<open>Interruption and audio in one message\<close>




subsection \<open>Messages after disconnect\<close>

text \<open>
  After \<^verbatim>\<open>disconnect\<close> has run, a message whose first request is a request for the
  system-command tool without an argument object: line 151 throws there, and the
  well-formed request behind it reaches neither \<^verbatim>\<open>onCommand\<close> nor an acknowledgment.
\<close>

theorem malformed_request_blocks_after_teardown:
  "completion_of (disconnect playing) = Finished \<and>
   handleServerMessage one_second 6 (state_of (disconnect playing))
     (request_message
       [\<lparr>fc_id = Some ''b'', fc_name = Some ''executeSystemCommand'', fc_args = JUndefined\<rparr>,
        \<lparr>fc_id = Some ''c'', fc_name = Some ''executeSystemCommand'',
         fc_args = JObj [(''command'', JStr ''shutdown'')]\<rparr>]) =
     (state_of (disconnect playing), [], Threw TypeError)"
  using disconnect_state(2) [OF open_contexts_playing]
  by (simp add: handleServerMessage_def handle_tool_calls_def request_message_def)

text \<open>
  C10, as the code has it. After \<^verbatim>\<open>disconnect\<close> has run to its end on a service with
  a session, the output context is \<^verbatim>\<open>null\<close>; for a message delivered then in which
  every request named \<^verbatim>\<open>executeSystemCommand\<close> carries an argument object, each such
  request still invokes \<^verbatim>\<open>onCommand\<close> and is acknowledged in the batch that is sent,
  and nothing else happens: whatever interruption flag or audio payload the message
  has, the service is unchanged and no source is stopped or started.
\<close>

theorem tool_calls_survive_teardown:
  assumes "completion_of (disconnect s) = Finished" and "sessionPromise s \<noteq> None"
    and "toolCall message = Some tc" and "functionCalls tc = Some fcs" and "conforming fcs"
  shows "outputAudioContext (state_of (disconnect s)) = None \<and>
    handleServerMessage duration currentTime (state_of (disconnect s)) message =
      (state_of (disconnect s),
       map (\<lambda>fc. OnCommand (command_of fc)) (filter is_system_command fcs) @
       (if filter is_system_command fcs = [] then []
        else [SendToolResponse (map acknowledgment (filter is_system_command fcs))]),
       Returned)"
proof -
  let ?s' = "state_of (disconnect s)"
  from disconnect_finished [OF assms(1)]
  have ctx: "outputAudioContext ?s' = None" and p: "sessionPromise ?s' = sessionPromise s"
    by simp_all
  from assms(3-) have c: "conforms message" by (simp add: conforms_def)
  from handler_guard [OF c, of ?s' duration currentTime] ctx
    handle_tool_calls_requests [OF assms(3-)] p assms(2)
  show ?thesis by (auto simp: deferred_send_def)
qed

theorem tool_calls_survive_teardown_witness:
  "completion_of (disconnect playing) = Finished \<and> sessionPromise playing \<noteq> None \<and>
   conforming
     [\<lparr>fc_id = Some ''9'', fc_name = Some ''executeSystemCommand'',
       fc_args = JObj [(''command'', JStr ''shutdown'')]\<rparr>] \<and>
   handleServerMessage one_second 6 (state_of (disconnect playing))
     \<lparr>toolCall = Some \<lparr>functionCalls = Some
        [\<lparr>fc_id = Some ''9'', fc_name = Some ''executeSystemCommand'',
          fc_args = JObj [(''command'', JStr ''shutdown'')]\<rparr>]\<rparr>,
      serverContent = Some
        \<lparr>interrupted = Some True,
         modelTurn = Some \<lparr>parts = Some [\<lparr>inlineData = Some \<lparr>data = Some ''BBBB''\<rparr>\<rparr>]\<rparr>\<rparr>\<rparr> =
     (state_of (disconnect playing),
      [OnCommand (JStr ''shutdown''),
       SendToolResponse
         [\<lparr>fr_id = Some ''9'', fr_name = Some ''executeSystemCommand'',
           fr_result = ''Command executed successfully''\<rparr>]],
      Returned)"
proof -
  let ?fcs = "[\<lparr>fc_id = Some ''9'', fc_name = Some ''executeSystemCommand'',
       fc_args = JObj [(''command'', JStr ''shutdown'')]\<rparr>]"
  have f: "completion_of (disconnect playing) = Finished"
    by (rule disconnect_state(2) [OF open_contexts_playing])
  have p: "sessionPromise playing \<noteq> None"
    by (simp add: playing_eq connected_simps)
  have c: "conforming ?fcs"
    by (simp add: conforming_def has_arguments_def)
  from tool_calls_survive_teardown [where duration = one_second and currentTime = 6
      and tc = "\<lparr>functionCalls = Some ?fcs\<rparr>", OF f p _ _ c]
    f p c
  show ?thesis
    by (simp add: is_system_command_def command_of_def acknowledgment_def)
qed

subsection \<open>Teardown\<close>

text \<open>
  Two ways in which teardown is not idempotent. A second \<^verbatim>\<open>disconnect\<close> that is
  called while the first waits at line 225 finds the input context closed and still
  referred to, and rejects with an InvalidStateError. And a \<^verbatim>\<open>disconnect\<close> that runs
  while \<^verbatim>\<open>connect\<close> waits for the microphone clears the fields, after which
  \<^verbatim>\<open>connect\<close> resumes and stores the stream.
\<close>

theorem overlapping_disconnect_rejects:
  "completion_of (disconnect_start connected) = Suspended AfterInputClose \<and>
   completion_of (disconnect_start (state_of (disconnect_start connected))) =
     Rejected InvalidStateError \<and>
   completion_of (disconnect (fst (connect_setup [] 1 new_service))) = Finished \<and>
   activeStream
     (fst (connect_session (Some \<lparr>tracks = 1\<rparr>) Fenrir
       (state_of (disconnect (fst (connect_setup [] 1 new_service)))))) =
     Some \<lparr>tracks = 1\<rparr>"
  by (simp add: disconnect_def disconnect_start_def disconnect_output_def disconnect_finish_def
      Let_def muted_def connected_simps state_of_def completion_of_def connect_session_def
      connect_setup_def updateVisualizer_def new_service_def)

text \<open>
  C6, as the code has it. When no referenced audio context has been closed, that is
  when no earlier \<^verbatim>\<open>disconnect\<close> is still in progress, and so also before
  \<^verbatim>\<open>connect\<close> was called or while it waits for the microphone, a \<^verbatim>\<open>disconnect\<close> that
  runs to its end with no other call of the service in between finishes without an
  error and leaves no reference to a stream or an audio context, and the set of
  sources empty; a second \<^verbatim>\<open>disconnect\<close> after it has finished finishes as well and
  changes nothing. It does not cancel a \<^verbatim>\<open>connect\<close> that waits for the microphone:
  when that resumes, it stores the stream.
\<close>

theorem idempotent_teardown:
  assumes "open_contexts s"
  shows "completion_of (disconnect s) = Finished \<and>
    activeStream (state_of (disconnect s)) = None \<and>
    inputAudioContext (state_of (disconnect s)) = None \<and>
    outputAudioContext (state_of (disconnect s)) = None \<and>
    sources (state_of (disconnect s)) = [] \<and>
    completion_of (disconnect (state_of (disconnect s))) = Finished \<and>
    state_of (disconnect (state_of (disconnect s))) = state_of (disconnect s) \<and>
    (\<forall>stream voice.
       activeStream (fst (connect_session (Some stream) voice (state_of (disconnect s)))) =
         Some stream)"
proof -
  let ?s' = "state_of (disconnect s)"
  note first = disconnect_state [OF assms]
  from first(1) have o': "open_contexts ?s'"
    by (simp add: open_contexts_def)
  note second = disconnect_state [OF o']
  have "muted ?s' = ?s'"
    by (simp add: first(1) muted_def split: option.splits)
  with second(1) first(1) have "state_of (disconnect ?s') = ?s'"
    by simp
  with first second(2) show ?thesis
    by (simp add: connect_session_def)
qed

theorem idempotent_teardown_witness:
  "open_contexts (fst (connect_setup [] 1 new_service)) \<and>
   inputAudioContext (fst (connect_setup [] 1 new_service)) =
     Some \<lparr>sampleRate = 16000, closed = False\<rparr> \<and>
   activeStream (fst (connect_setup [] 1 new_service)) = None \<and>
   processor (fst (connect_setup [] 1 new_service)) = None \<and>
   completion_of (disconnect (fst (connect_setup [] 1 new_service))) = Finished \<and>
   inputAudioContext (state_of (disconnect (fst (connect_setup [] 1 new_service)))) = None \<and>
   outputAudioContext (state_of (disconnect (fst (connect_setup [] 1 new_service)))) = None \<and>
   completion_of (disconnect (state_of (disconnect (fst (connect_setup [] 1 new_service))))) =
     Finished \<and>
   open_contexts new_service \<and>
   completion_of (disconnect new_service) = Finished \<and>
   completion_of (disconnect (state_of (disconnect new_service))) = Finished"
proof -
  have a: "open_contexts (fst (connect_setup [] 1 new_service))"
    by (simp add: open_contexts_def connect_setup_def updateVisualizer_def)
  have b: "open_contexts new_service"
    by (simp add: open_contexts_def new_service_def)
  from idempotent_teardown [OF a] idempotent_teardown [OF b] a b show ?thesis
    by (simp add: connect_setup_def updateVisualizer_def new_service_def)
qed

subsection \<open>The cursor at connect\<close>

text \<open>
  A service that played one second of audio from clock time 3, was disconnected and
  is connected again: the set is empty, but the cursor is still 4, not 0.
\<close>

theorem cursor_survives_reconnect:
  "nextStartTime
     (state_of (connect [] 2 (Some \<lparr>tracks = 1\<rparr>) Fenrir (state_of (disconnect playing)))) = 4 \<and>
   sources
     (state_of (connect [] 2 (Some \<lparr>tracks = 1\<rparr>) Fenrir (state_of (disconnect playing)))) = []"
  using disconnect_state(1) [OF open_contexts_playing]
  by (simp add: connect_def connect_setup_def connect_session_def updateVisualizer_def
      state_of_def muted_fields playing_eq muted_def split: option.splits)

text \<open>
  C7, as the code has it. \<^verbatim>\<open>connect\<close> writes neither \<^verbatim>\<open>nextStartTime\<close> nor the set
  of sources: both are after the call what they were before it. On a freshly
  constructed service that is 0 and the empty set.
\<close>

theorem connect_keeps_cursor:
  "nextStartTime (state_of (connect spectrum frame microphone voice s)) = nextStartTime s \<and>
   sources (state_of (connect spectrum frame microphone voice s)) = sources s \<and>
   nextStartTime (state_of (connect spectrum frame microphone voice new_service)) = 0 \<and>
   sources (state_of (connect spectrum frame microphone voice new_service)) = []"
  by (simp add: connect_def connect_setup_def connect_session_def updateVisualizer_def
      state_of_def new_service_def split: option.splits)

subsection \<open>The amplitude\<close>

lemma fold_sum_bins:
  "fold (\<lambda>b sum. sum + real (unat b)) dataArray acc = acc + real (sum_list (map unat dataArray))"
  by (induction dataArray arbitrary: acc) simp_all

lemma sum_bins_le: "sum_list (map unat (dataArray :: 8 word list)) \<le> 255 * length dataArray"
proof (induction dataArray)
  case Nil
  show ?case by simp
next
  case (Cons b bs)
  have "unat b < 2 ^ LENGTH(8)"
    by (rule unsigned_less)
  with Cons show ?case by simp
qed

lemma average_mean:
  assumes "dataArray \<noteq> []"
  shows "\<exists>a. average dataArray = Some a \<and>
    a = real (sum_list (map unat dataArray)) / real (length dataArray) \<and> 0 \<le> a \<and> a \<le> 255"
proof -
  let ?n = "real (length dataArray)"
  let ?a = "real (sum_list (map unat dataArray)) / ?n"
  from assms have n: "0 < ?n" by simp
  have "real (sum_list (map unat dataArray)) \<le> 255 * ?n"
    using sum_bins_le [of dataArray] by (metis of_nat_le_iff of_nat_mult of_nat_numeral)
  with n have "?a \<le> 255"
    by (simp add: pos_divide_le_eq)
  moreover have "0 \<le> ?a" by simp
  moreover from assms have "average dataArray = Some ?a"
    unfolding average_def fold_sum_bins by simp
  ultimately show ?thesis by blast
qed

lemma length_getByteFrequencyData:
  "length (getByteFrequencyData a spectrum) = frequencyBinCount a"
  by (simp add: getByteFrequencyData_def)

lemma updateVisualizer_amplitude:
  assumes "analyser s = Some a" and "fftSize a = 256"
  shows "\<exists>v. snd (updateVisualizer spectrum frame s) =
      [OnAudioData (Some v), RequestAnimationFrame frame] \<and>
    v = real (sum_list (map unat (take 128 (spectrum @ replicate 128 0)))) / 128 \<and>
    0 \<le> v \<and> v \<le> 255"
proof -
  from assms(2) have f: "frequencyBinCount a = 128"
    by (simp add: frequencyBinCount_def)
  define bins where "bins = take 128 (spectrum @ replicate 128 (0 :: 8 word))"
  from f have d: "getByteFrequencyData a spectrum = bins"
    by (simp add: getByteFrequencyData_def bins_def)
  have l: "length bins = 128"
    by (simp add: bins_def)
  then have "bins \<noteq> []" by auto
  from average_mean [OF this] obtain v where
    "average bins = Some v" "v = real (sum_list (map unat bins)) / real (length bins)"
    "0 \<le> v" "v \<le> 255"
    by blast
  with l assms(1) d have "snd (updateVisualizer spectrum frame s) =
      [OnAudioData (Some v), RequestAnimationFrame frame] \<and>
    v = real (sum_list (map unat bins)) / 128 \<and> 0 \<le> v \<and> v \<le> 255"
    by (simp add: updateVisualizer_def)
  then show ?thesis
    unfolding bins_def by blast
qed

text \<open>
  C9. Every value that the visualizer loop passes to \<^verbatim>\<open>onAudioData\<close>, in a tick on a
  reachable service just as in the first run inside \<^verbatim>\<open>connect\<close>, is a number (not
  NaN), namely the sum of the 128 byte-valued frequency bins divided by 128; it lies
  between 0 and 255 and is passed on as it is, without scaling to the interval from 0
  to 1.
\<close>

theorem amplitude_range:
  assumes "reachable s"
  shows "(snd (updateVisualizer spectrum frame s) = [] \<or>
     (\<exists>v. snd (updateVisualizer spectrum frame s) =
        [OnAudioData (Some v), RequestAnimationFrame frame] \<and>
      v = real (sum_list (map unat (take 128 (spectrum @ replicate 128 0)))) / 128 \<and>
      0 \<le> v \<and> v \<le> 255)) \<and>
    (\<exists>v. events_of (connect spectrum frame microphone voice s) =
        [OnAudioData (Some v), RequestAnimationFrame frame] \<and>
      v = real (sum_list (map unat (take 128 (spectrum @ replicate 128 0)))) / 128 \<and>
      0 \<le> v \<and> v \<le> 255)"
proof -
  have tick: "snd (updateVisualizer spectrum frame s) = [] \<or>
     (\<exists>v. snd (updateVisualizer spectrum frame s) =
        [OnAudioData (Some v), RequestAnimationFrame frame] \<and>
      v = real (sum_list (map unat (take 128 (spectrum @ replicate 128 0)))) / 128 \<and>
      0 \<le> v \<and> v \<le> 255)"
  proof (cases "analyser s")
    case None
    then show ?thesis by (simp add: updateVisualizer_def)
  next
    case (Some a)
    with reachable_invariant [OF assms] have "fftSize a = 256"
      by (simp add: service_invariant_def)
    from updateVisualizer_amplitude [OF Some this] show ?thesis by blast
  qed
  let ?s1 = "s\<lparr>inputAudioContext := Some \<lparr>sampleRate = 16000, closed = False\<rparr>,
          outputAudioContext := Some \<lparr>sampleRate = 24000, closed = False\<rparr>,
          outputNode := Some (),
          analyser := Some \<lparr>fftSize = 256\<rparr>\<rparr>"
  have "events_of (connect spectrum frame microphone voice s) =
    snd (updateVisualizer spectrum frame ?s1)"
    by (cases "updateVisualizer spectrum frame ?s1";
        cases "connect_session microphone voice (fst (updateVisualizer spectrum frame ?s1))")
      (simp add: connect_def connect_setup_def events_of_def)
  with updateVisualizer_amplitude [of ?s1 "\<lparr>fftSize = 256\<rparr>" spectrum frame] tick
  show ?thesis by simp
qed

theorem amplitude_range_witness:
  "reachable connected \<and>
   snd (updateVisualizer (replicate 128 255) 2 connected) =
     [OnAudioData (Some 255), RequestAnimationFrame 2]"
proof -
  have "analyser connected = Some \<lparr>fftSize = 256\<rparr>"
    by (simp add: connected_def connect_def connect_setup_def connect_session_def
      updateVisualizer_def new_service_def state_of_def)
  then have "snd (updateVisualizer (replicate 128 255) 2 connected) \<noteq> []"
    by (simp add: updateVisualizer_def)
  moreover have "real (sum_list (map unat (take 128 (replicate 128 (255 :: 8 word) @ replicate 128 0)))) / 128 = 255"
    by (simp add: sum_list_replicate)
  ultimately show ?thesis
    using amplitude_range [OF reachable_connected, of "replicate 128 255" 2] reachable_connected
    by auto
qed

subsection \<open>Gapless scheduling\<close>

lemma length_schedule: "length (schedule cursor xs) = length xs"
  by (induction cursor xs rule: schedule.induct) simp_all

lemma schedule_nth:
  "i < length xs \<Longrightarrow> schedule cursor xs ! i = max (cursor_after cursor (take i xs)) (fst (xs ! i))"
proof (induction cursor xs arbitrary: i rule: schedule.induct)
  case (1 cursor)
  then show ?case by simp
next
  case (2 cursor now d rest)
  then show ?case by (cases i) simp_all
qed

lemma schedule_Suc:
  "Suc i < length xs \<Longrightarrow>
   schedule cursor xs ! Suc i = max (schedule cursor xs ! i + snd (xs ! i)) (fst (xs ! Suc i))"
proof (induction cursor xs arbitrary: i rule: schedule.induct)
  case (1 cursor)
  then show ?case by simp
next
  case (2 cursor now d rest)
  show ?case
  proof (cases i)
    case 0
    with "2.prems" obtain now' d' rest' where "rest = (now', d') # rest'"
      by (cases rest) auto
    with 0 show ?thesis by simp
  next
    case (Suc j)
    with "2.prems" have "Suc j < length rest" by simp
    from "2.IH" [OF this] Suc show ?thesis by simp
  qed
qed

lemma handle_all_audio:
  assumes "outputAudioContext s \<noteq> None" and "outputNode s \<noteq> None"
    and "list_all carries_audio (map snd ms)"
  shows "start_times (snd (handle_all duration s ms)) =
      schedule (nextStartTime s) (timing duration ms) \<and>
    nextStartTime (fst (handle_all duration s ms)) =
      cursor_after (nextStartTime s) (timing duration ms)"
  using assms
proof (induction ms arbitrary: s)
  case Nil
  show ?case by (simp add: timing_def)
next
  case (Cons x ms)
  obtain now message where x: "x = (now, message)" by (cases x)
  with Cons.prems(3) have a: "carries_audio message" and rest: "list_all carries_audio (map snd ms)"
    by simp_all
  from a obtain payload where p: "base64Audio message = Some payload" "payload \<noteq> []"
    and c: "conforms message" and q: "\<not> signals_interruption message"
    by (auto simp: carries_audio_def split: option.splits)
  let ?s' = "s\<lparr>nextStartTime := max (nextStartTime s) now + duration payload,
       sources := add_source \<lparr>src_id = fresh s, src_duration = duration payload\<rparr> (sources s),
       fresh := Suc (fresh s)\<rparr>"
  note h = handler_audio [OF c Cons.prems(1,2) q p, of duration now]
  have ctx: "outputAudioContext ?s' \<noteq> None" "outputNode ?s' \<noteq> None"
    using Cons.prems(1,2) by simp_all
  have tm: "timing duration (x # ms) = (now, duration payload) # timing duration ms"
    using x p by (simp add: timing_def payload_of_def)
  have run: "handle_all duration s (x # ms) =
    (fst (handle_all duration ?s' ms),
     (fst (fst (handle_tool_calls message)) @
        deferred_send s (snd (fst (handle_tool_calls message))) @
        [SourceStart (fresh s) (max (nextStartTime s) now)]) @
       snd (handle_all duration ?s' ms))"
    using h x by (simp split: prod.splits)
  from Cons.IH [OF ctx rest] show ?case
    unfolding run tm
    by (simp add: start_times_append start_times_tool_calls start_times_send)
qed

lemma timing_take: "take i (timing duration ms) = timing duration (take i ms)"
  by (simp add: timing_def take_map)

lemma carries_audio_take:
  "list_all carries_audio (map snd ms) \<Longrightarrow> list_all carries_audio (map snd (take i ms))"
  by (auto simp: list_all_iff dest: in_set_takeD)

text \<open>
  C2. For any sequence of audio messages handled one after the other while there are
  an output context and an output node, whatever the clock readings are (so in
  particular for non-decreasing ones): one source is started per message; the start
  time of each is the maximum of the cursor \<^verbatim>\<open>nextStartTime\<close> at that moment and the
  clock reading; each unit starts no earlier than the previous unit's start plus the
  previous unit's duration, and exactly then whenever the clock reading is not beyond
  that point.
\<close>

theorem gapless_scheduling:
  assumes "outputAudioContext s \<noteq> None" and "outputNode s \<noteq> None"
    and "list_all carries_audio (map snd ms)"
  shows "length (start_times (snd (handle_all duration s ms))) = length ms \<and>
    (\<forall>i. i < length ms \<longrightarrow>
       start_times (snd (handle_all duration s ms)) ! i =
         max (nextStartTime (fst (handle_all duration s (take i ms)))) (fst (ms ! i))) \<and>
    (\<forall>i. Suc i < length ms \<longrightarrow>
       start_times (snd (handle_all duration s ms)) ! i + duration (payload_of (snd (ms ! i)))
         \<le> start_times (snd (handle_all duration s ms)) ! Suc i \<and>
       (fst (ms ! Suc i) \<le>
          start_times (snd (handle_all duration s ms)) ! i + duration (payload_of (snd (ms ! i)))
        \<longrightarrow>
        start_times (snd (handle_all duration s ms)) ! Suc i =
          start_times (snd (handle_all duration s ms)) ! i + duration (payload_of (snd (ms ! i)))))"
proof -
  let ?xs = "timing duration ms"
  let ?starts = "start_times (snd (handle_all duration s ms))"
  have st: "?starts = schedule (nextStartTime s) ?xs"
    using handle_all_audio [OF assms] by simp
  have len: "length ?xs = length ms"
    by (simp add: timing_def)
  have nth: "?xs ! i = (fst (ms ! i), duration (payload_of (snd (ms ! i))))" if "i < length ms" for i
    using that by (simp add: timing_def split: prod.splits)
  have a: "length ?starts = length ms"
    by (simp add: st length_schedule len)
  have b: "?starts ! i = max (nextStartTime (fst (handle_all duration s (take i ms)))) (fst (ms ! i))"
    if "i < length ms" for i
  proof -
    from handle_all_audio [where duration = duration, OF assms(1,2) carries_audio_take [OF assms(3), of i]]
    have "nextStartTime (fst (handle_all duration s (take i ms))) =
      cursor_after (nextStartTime s) (take i ?xs)"
      by (simp add: timing_take)
    with schedule_nth [of i ?xs "nextStartTime s"] that len nth [OF that] st show ?thesis
      by simp
  qed
  have c: "?starts ! Suc i =
      max (?starts ! i + duration (payload_of (snd (ms ! i)))) (fst (ms ! Suc i))"
    if "Suc i < length ms" for i
  proof -
    from that have "i < length ms" by simp
    from schedule_Suc [of i ?xs "nextStartTime s"] that len nth [OF that] nth [OF this] st
    show ?thesis by simp
  qed
  from a b c show ?thesis
    by (simp add: max_def)
qed

theorem gapless_scheduling_witness:
  "outputAudioContext connected \<noteq> None \<and> outputNode connected \<noteq> None \<and>
   list_all carries_audio
     (map snd [(1, audio_message ''AAAA''), (3 / 2, audio_message ''BBBB''), (4, audio_message ''CCCC'')]) \<and>
   length (start_times (snd (handle_all one_second connected
     [(1, audio_message ''AAAA''), (3 / 2, audio_message ''BBBB''), (4, audio_message ''CCCC'')]))) = 3 \<and>
   start_times (snd (handle_all one_second connected
     [(1, audio_message ''AAAA''), (3 / 2, audio_message ''BBBB''), (4, audio_message ''CCCC'')])) ! 0 = 1 \<and>
   start_times (snd (handle_all one_second connected
     [(1, audio_message ''AAAA''), (3 / 2, audio_message ''BBBB''), (4, audio_message ''CCCC'')])) ! 1 = 2 \<and>
   start_times (snd (handle_all one_second connected
     [(1, audio_message ''AAAA''), (3 / 2, audio_message ''BBBB''), (4, audio_message ''CCCC'')])) ! 2 = 4"
proof -
  define ms where
    "ms = [(1 :: real, audio_message ''AAAA''), (3 / 2, audio_message ''BBBB''), (4, audio_message ''CCCC'')]"
  define starts where "starts = start_times (snd (handle_all one_second connected ms))"
  have h: "outputAudioContext connected \<noteq> None" "outputNode connected \<noteq> None"
    by (simp_all add: connected_simps)
  have a: "list_all carries_audio (map snd ms)"
    by (simp add: ms_def carries_audio_def audio_message_simps)
  have p: "payload_of (audio_message x) = x" for x
    by (simp add: payload_of_def audio_message_simps)
  have len: "length ms = 3"
    and fsts: "fst (ms ! 0) = 1" "fst (ms ! Suc 0) = 3 / 2" "fst (ms ! Suc (Suc 0)) = 4"
    and durs: "one_second (payload_of (snd (ms ! 0))) = 1"
      "one_second (payload_of (snd (ms ! Suc 0))) = 1"
    by (simp_all add: ms_def one_second_def)
  from gapless_scheduling [OF h a, of one_second]
  have l: "length starts = length ms"
    and n: "\<And>i. i < length ms \<Longrightarrow>
      starts ! i = max (nextStartTime (fst (handle_all one_second connected (take i ms)))) (fst (ms ! i))"
    and g: "\<And>i. Suc i < length ms \<Longrightarrow>
      starts ! i + one_second (payload_of (snd (ms ! i))) \<le> starts ! Suc i \<and>
      (fst (ms ! Suc i) \<le> starts ! i + one_second (payload_of (snd (ms ! i))) \<longrightarrow>
       starts ! Suc i = starts ! i + one_second (payload_of (snd (ms ! i))))"
    unfolding starts_def by blast+
  from n [of 0] have s0: "starts ! 0 = 1"
    by (simp add: len fsts connected_simps)
  from g [of 0] s0 have s1: "starts ! Suc 0 = 2"
    by (simp add: len fsts durs)
  have "nextStartTime (fst (handle_all one_second connected (take (Suc (Suc 0)) ms))) = 3"
    using handle_all_audio [where duration = one_second and ms = "take (Suc (Suc 0)) ms",
        OF h carries_audio_take [OF a]]
    by (simp add: ms_def timing_def one_second_def connected_simps)
  with n [of "Suc (Suc 0)"] have s2: "starts ! Suc (Suc 0) = 4"
    by (simp add: len fsts)
  from h a l len s0 s1 s2 show ?thesis
    unfolding starts_def ms_def by (simp add: numeral_2_eq_2)
qed

subsection \<open>The codec round trip\<close>

text \<open>
  The round-trip law of the specification (section 8, property 1) bounds the error of decoding an
  encoded sample by 1/32767. Whether it holds depends on the two things the
  specification leaves open. With a decoder that divides by 32767 it holds for every
  conversion that moves a number by less than 1; but that decoder maps the bytes of
  -32768 below -1, outside the range the specification gives. With a decoder that
  divides by 32768 and truncation toward zero it fails. So the law is left open here.
\<close>

lemma bytes_int16_bytes:
  assumes "- 32768 \<le> q" and "q \<le> 32767"
  shows "bytes_int16 ((q mod 65536) mod 256) ((q mod 65536) div 256) = q"
proof -
  have "(q mod 65536) mod 256 + 256 * ((q mod 65536) div 256) = q mod 65536"
    by simp
  moreover have "q mod 65536 = (if 0 \<le> q then q else q + 65536)"
  proof (cases "0 \<le> q")
    case True
    with assms show ?thesis by simp
  next
    case False
    have "q mod 65536 = (q + 65536) mod 65536" by simp
    also from False assms have "\<dots> = q + 65536"
      by (intro mod_pos_pos_trivial) simp_all
    finally show ?thesis using False by simp
  qed
  ultimately show ?thesis
    using assms unfolding bytes_int16_def Let_def by auto
qed

lemma quantized_range:
  assumes "\<bar>real_of_int q - x\<bar> < 1" and "- 32767 \<le> x" and "x \<le> 32767"
  shows "- 32768 \<le> q \<and> q \<le> 32767"
proof -
  from assms have "real_of_int q < 32768" and "- 32768 < real_of_int q"
    by linarith+
  then show ?thesis by linarith
qed

lemma clamp_id: "- 1 \<le> x \<Longrightarrow> x \<le> 1 \<Longrightarrow> clamp x = x"
  by (simp add: clamp_def)

lemma decode_sample:
  assumes "\<forall>y. \<bar>real_of_int (to_int y) - y\<bar> < 1" and "- 1 \<le> x" and "x \<le> 1"
  shows "bytesToAudioBuffer divisor (int16_bytes (to_int (clamp x * 32767)) @ rest) =
      real_of_int (to_int (x * 32767)) / divisor # bytesToAudioBuffer divisor rest"
proof -
  let ?q = "to_int (x * 32767)"
  from assms(1) have d: "\<bar>real_of_int ?q - x * 32767\<bar> < 1" by blast
  from assms(2,3) have "- 32767 \<le> x * 32767" "x * 32767 \<le> 32767" by simp_all
  from quantized_range [OF d this] have r: "- 32768 \<le> ?q" "?q \<le> 32767" by simp_all
  from bytes_int16_bytes [OF r] assms(2,3) show ?thesis
    by (simp add: clamp_id int16_bytes_def Let_def)
qed

lemma decode_encode:
  assumes "\<forall>y. \<bar>real_of_int (to_int y) - y\<bar> < 1" and "list_all (\<lambda>x. - 1 \<le> x \<and> x \<le> 1) S"
  shows "bytesToAudioBuffer divisor (encode to_int S) =
    map (\<lambda>x. real_of_int (to_int (x * 32767)) / divisor) S"
  using assms(2)
proof (induction S)
  case Nil
  show ?case by (simp add: encode_def)
next
  case (Cons x S)
  then have x: "- 1 \<le> x" "x \<le> 1" and S: "list_all (\<lambda>x. - 1 \<le> x \<and> x \<le> 1) S"
    by simp_all
  have "encode to_int (x # S) = int16_bytes (to_int (clamp x * 32767)) @ encode to_int S"
    by (simp add: encode_def)
  with decode_sample [OF assms(1) x, of divisor "encode to_int S"] Cons.IH [OF S] show ?case
    by simp
qed

lemma toward_zero_close: "\<bar>real_of_int (toward_zero y) - y\<bar> < 1"
  unfolding toward_zero_def by (auto; linarith)

text \<open>Dividing by 32767: the bound holds, whatever the conversion within 1.\<close>

lemma round_trip_dividing_by_32767:
  assumes "\<forall>y. \<bar>real_of_int (to_int y) - y\<bar> < 1"
    and "list_all (\<lambda>x. - 1 \<le> x \<and> x \<le> 1) S" and "i < length S"
  shows "\<bar>bytesToAudioBuffer 32767 (encode to_int S) ! i - S ! i\<bar> \<le> 1 / 32767"
proof -
  let ?q = "to_int (S ! i * 32767)"
  from assms(1) have d: "\<bar>real_of_int ?q - S ! i * 32767\<bar> < 1" by blast
  have "\<bar>real_of_int ?q / 32767 - S ! i\<bar> = \<bar>real_of_int ?q - S ! i * 32767\<bar> / 32767"
    by (simp add: field_simps)
  with d have "\<bar>real_of_int ?q / 32767 - S ! i\<bar> \<le> 1 / 32767"
    by (simp add: divide_le_cancel)
  with assms(3) show ?thesis
    by (simp add: decode_encode [OF assms(1,2)])
qed

text \<open>Dividing by 32767: the lowest 16-bit value is decoded to a number below -1.\<close>

lemma dividing_by_32767_leaves_range:
  "bytesToAudioBuffer 32767 [0, 128] = [- 32768 / 32767]"
  by (simp add: bytes_int16_def)

text \<open>Dividing by 32768, with truncation: the bound fails for the sample 65533/65534.\<close>

lemma round_trip_dividing_by_32768:
  "bytesToAudioBuffer 32768 (encode toward_zero [65533 / 65534]) = [32766 / 32768] \<and>
   1 / 32767 < \<bar>32766 / 32768 - 65533 / (65534 :: real)\<bar>"
  by (simp add: encode_def int16_bytes_def clamp_def toward_zero_def bytes_int16_def)

end
